theory Spec2Isabelle
  imports Main "HOL-Library.Char_ord" "HOL-Library.List_Lexorder" "HOL-Library.Product_Lexorder"
    "HOL-Library.Multiset"
begin

section \<open>JavaScript values and strings\<close>

text \<open>
  The server (\<^verbatim>\<open>src/server.js\<close>) reads schemaless JSON documents, so a field of a
  stored document is any JSON value or missing. Numbers are kept as integers (the code only
  tests them for truthiness or hands them to \<^verbatim>\<open>Date\<close>); nested arrays and objects are left
  out. Strings are byte strings; case conversion and the whitespace class \<^verbatim>\<open>\s\<close> are
  modelled on their ASCII part.
\<close>

datatype jsval = JUndefined | JNull | JBool bool | JNum int | JStr string

datatype error = TypeError | RangeError | StoreError

text \<open>JavaScript truthiness, as used by \<^verbatim>\<open>||\<close>, \<^verbatim>\<open>!\<close> and \<^verbatim>\<open>if\<close>.\<close>

fun truthy :: "jsval \<Rightarrow> bool" where
  "truthy JUndefined = False"
| "truthy JNull = False"
| "truthy (JBool b) = b"
| "truthy (JNum n) = (n \<noteq> 0)"
| "truthy (JStr s) = (s \<noteq> [])"

definition js_or :: "jsval \<Rightarrow> jsval \<Rightarrow> jsval" where
  "js_or a b = (if truthy a then a else b)"

definition toLowerChar :: "char \<Rightarrow> char" where
  "toLowerChar c =
     (let n = (of_char c :: nat) in if 65 \<le> n \<and> n \<le> 90 then char_of (n + 32) else c)"

definition toLowerCase :: "string \<Rightarrow> string" where
  "toLowerCase s = map toLowerChar s"

text \<open>\<^verbatim>\<open>v.toLowerCase()\<close> on an arbitrary value: only a string has the method.\<close>

fun js_toLowerCase :: "jsval \<Rightarrow> error + string" where
  "js_toLowerCase (JStr s) = Inr (toLowerCase s)"
| "js_toLowerCase _ = Inl TypeError"

text \<open>The ASCII members of the regular-expression class \<^verbatim>\<open>\s\<close>: tab, line feed,
  vertical tab, form feed, carriage return and space.\<close>

definition is_space :: "char \<Rightarrow> bool" where
  "is_space c = (let n = (of_char c :: nat) in (9 \<le> n \<and> n \<le> 13) \<or> n = 32)"

text \<open>\<^verbatim>\<open>s.replace(/'/g, "")\<close>\<close>

definition remove_apostrophes :: "string \<Rightarrow> string" where
  "remove_apostrophes s = filter (\<lambda>c. c \<noteq> CHR 0x27) s"

text \<open>\<^verbatim>\<open>s.replace(/\s+/g, "-")\<close>: every maximal run of whitespace becomes one hyphen.\<close>

function replace_spaces :: "string \<Rightarrow> string" where
  "replace_spaces [] = []"
| "replace_spaces (c # cs) =
     (if is_space c then CHR ''-'' # replace_spaces (dropWhile is_space cs)
      else c # replace_spaces cs)"
  by pat_completeness auto
termination
  by (relation "measure length") (auto simp: length_dropWhile_le less_Suc_eq_le)

section \<open>Reading normalizer\<close>

record rawdoc =
  raw_location :: jsval
  raw_windowEnd :: jsval
  raw_timestamp :: jsval
  raw_avgIceThickness :: jsval
  raw_avgSurfaceTemperature :: jsval
  raw_maxSnowAccumulation :: jsval
  raw_avgExternalTemperature :: jsval
  raw_safetyStatus :: jsval
  raw_readingCount :: jsval

record reading =
  location :: string
  timestamp :: jsval
  avgIceThickness :: jsval
  avgSurfaceTemperature :: jsval
  maxSnowAccumulation :: jsval
  avgExternalTemperature :: jsval
  safetyStatus :: jsval
  readingCount :: jsval

text \<open>The chain \<^verbatim>\<open>.toLowerCase().replace(/'/g, "").replace(/\s+/g, "-")\<close> applied to
  a string.\<close>

definition normalizeLocation :: "string \<Rightarrow> string" where
  "normalizeLocation s = replace_spaces (remove_apostrophes (toLowerCase s))"

text \<open>\<^verbatim>\<open>normalizeDoc(raw)\<close>: \<^verbatim>\<open>null\<close> for a missing record; a \<^verbatim>\<open>TypeError\<close> when
  \<^verbatim>\<open>raw.location\<close> has no \<^verbatim>\<open>toLowerCase\<close> method.\<close>

definition normalizeDoc :: "rawdoc option \<Rightarrow> error + reading option" where
  "normalizeDoc raw =
     (case raw of
        None \<Rightarrow> Inr None
      | Some d \<Rightarrow>
          (case js_toLowerCase (raw_location d) of
             Inl e \<Rightarrow> Inl e
           | Inr l \<Rightarrow>
               Inr (Some \<lparr>
                 location = replace_spaces (remove_apostrophes l),
                 timestamp = js_or (raw_windowEnd d) (raw_timestamp d),
                 avgIceThickness = raw_avgIceThickness d,
                 avgSurfaceTemperature = raw_avgSurfaceTemperature d,
                 maxSnowAccumulation = raw_maxSnowAccumulation d,
                 avgExternalTemperature = raw_avgExternalTemperature d,
                 safetyStatus = raw_safetyStatus d,
                 readingCount = raw_readingCount d \<rparr>)))"

section \<open>Location identity resolver\<close>

text \<open>The alias chosen by the conditional chain inside \<^verbatim>\<open>getLatestData\<close> and the history
  handler (\<^verbatim>\<open>null\<close> for any other key).\<close>

definition aliasOf :: "string \<Rightarrow> string option" where
  "aliasOf locationKey =
     (if locationKey = ''dows-lake'' then Some (''Dow'' @ [CHR 0x27] @ ''s Lake'')
      else if locationKey = ''fifth-avenue'' then Some ''Fifth Avenue''
      else if locationKey = ''nac'' then Some ''NAC''
      else None)"

text \<open>\<^verbatim>\<open>[locationKey, alias].filter(Boolean)\<close>: the filter drops \<^verbatim>\<open>null\<close> and also the
  empty string, both falsy.\<close>

definition locationVariants :: "string \<Rightarrow> string list" where
  "locationVariants locationKey =
     List.map_filter (\<lambda>v. case v of None \<Rightarrow> None | Some s \<Rightarrow> if s \<noteq> [] then Some s else None)
       [Some locationKey, aliasOf locationKey]"

section \<open>The store client\<close>

text \<open>
  \<^verbatim>\<open>container.items.query(querySpec).fetchAll()\<close> is a call into the store client, which
  either throws or yields the \<^verbatim>\<open>resources\<close> array. The three query texts of the fetchers
  are the constructors of \<open>query\<close>, each with its parameters (\<^verbatim>\<open>@loc\<close>, \<^verbatim>\<open>@cut\<close>).
  The module-level \<^verbatim>\<open>container\<close> variable stays \<^verbatim>\<open>undefined\<close> when the client could not
  be set up: a \<open>container option\<close>.
\<close>

datatype query =
    LatestQuery string
  | HistoryQuery string string
  | DistinctLocations

type_synonym container = "query \<Rightarrow> error + rawdoc list"

section \<open>Latest-reading fetcher\<close>

text \<open>The \<^verbatim>\<open>for (const loc of locationVariants)\<close> loop of \<^verbatim>\<open>getLatestData\<close>. Both the
  query and \<^verbatim>\<open>normalizeDoc(resources[0])\<close> sit inside the \<^verbatim>\<open>try\<close> block, so an error of
  either is caught and the loop goes on with the next variant.\<close>

fun latestLoop :: "container \<Rightarrow> string list \<Rightarrow> reading option" where
  "latestLoop c [] = None"
| "latestLoop c (loc # rest) =
     (case c (LatestQuery loc) of
        Inl err \<Rightarrow> latestLoop c rest
      | Inr resources \<Rightarrow>
          (case resources of
             [] \<Rightarrow> latestLoop c rest
           | r # _ \<Rightarrow>
               (case normalizeDoc (Some r) of
                  Inl err \<Rightarrow> latestLoop c rest
                | Inr data \<Rightarrow> data)))"

text \<open>\<^verbatim>\<open>getLatestData(locationKey)\<close>. After an unsuccessful loop the code runs the
  \<open>DistinctLocations\<close> query for a log line only (its error is caught too) and returns
  \<^verbatim>\<open>null\<close>. Console output is not modelled.\<close>

definition getLatestData :: "container option \<Rightarrow> string \<Rightarrow> reading option" where
  "getLatestData cont locationKey =
     (case cont of
        None \<Rightarrow> None
      | Some c \<Rightarrow> latestLoop c (locationVariants locationKey))"

section \<open>HTTP responses\<close>

record summary =
  systemStatus :: string
  totalLocations :: nat
  safeLocations :: nat
  cautionLocations :: nat
  unsafeLocations :: nat
  lastUpdate :: jsval
  locations :: "(string \<times> reading) list"

datatype body =
    ErrorBody string
  | ReadingBody reading
  | ReadingsBody "reading option list"
  | DataBody "(string \<times> reading) list"
  | StatusBody summary

text \<open>A response is a status code and a JSON body. A handler that throws produces none
  (\<open>Inl\<close> of the error).\<close>

datatype response = Response nat body

text \<open>The array \<^verbatim>\<open>locations\<close> of the \<^verbatim>\<open>/api/data\<close> and \<^verbatim>\<open>/api/status\<close> handlers.\<close>

definition locations3 :: "string list" where
  "locations3 = [''dows-lake'', ''fifth-avenue'', ''nac'']"

text \<open>\<^verbatim>\<open>GET /api/data\<close>\<close>

definition apiData :: "container option \<Rightarrow> response" where
  "apiData cont =
     Response 200 (DataBody
       (List.map_filter
          (\<lambda>loc. case getLatestData cont loc of None \<Rightarrow> None | Some data \<Rightarrow> Some (loc, data))
          locations3))"

text \<open>\<^verbatim>\<open>GET /api/data/:location\<close>\<close>

definition apiDataLocation :: "container option \<Rightarrow> string \<Rightarrow> response" where
  "apiDataLocation cont loc =
     (case getLatestData cont loc of
        None \<Rightarrow> Response 404 (ErrorBody ''No data for location'')
      | Some data \<Rightarrow> Response 200 (ReadingBody data))"

section \<open>Dates\<close>

text \<open>
  The \<^verbatim>\<open>Date\<close> built-in is taken as a parameter: the current time in milliseconds since
  the epoch, the string parser behind \<^verbatim>\<open>new Date(string)\<close> (\<open>None\<close> is an invalid date),
  the ISO-8601 rendering of a valid time value, and the server's time zone as the two
  conversions of the language standard: \<open>local_time\<close> takes a time value to local time
  (\<^verbatim>\<open>LocalTime(t)\<close>) and \<open>utc_time\<close> takes a local time back (\<^verbatim>\<open>UTC(t)\<close>). A time value
  is valid up to 8.64e15 ms either side of the epoch; beyond that the date is invalid, and
  \<^verbatim>\<open>toISOString\<close> of an invalid date throws a \<^verbatim>\<open>RangeError\<close>.
\<close>

record date_env =
  now :: int
  date_parse :: "string \<Rightarrow> int option"
  iso_string :: "int \<Rightarrow> string"
  local_time :: "int \<Rightarrow> int"
  utc_time :: "int \<Rightarrow> int"

definition timeClip :: "int \<Rightarrow> int option" where
  "timeClip t = (if \<bar>t\<bar> \<le> 8640000000000000 then Some t else None)"

definition toISOString :: "date_env \<Rightarrow> int option \<Rightarrow> error + string" where
  "toISOString env d = (case d of None \<Rightarrow> Inl RangeError | Some t \<Rightarrow> Inr (iso_string env t))"

text \<open>\<^verbatim>\<open>new Date(v)\<close> for a stored value.\<close>

fun newDate :: "date_env \<Rightarrow> jsval \<Rightarrow> int option" where
  "newDate env (JStr s) = (case date_parse env s of None \<Rightarrow> None | Some t \<Rightarrow> timeClip t)"
| "newDate env (JNum n) = timeClip n"
| "newDate env (JBool b) = Some (if b then 1 else 0)"
| "newDate env JNull = Some 0"
| "newDate env JUndefined = None"

section \<open>History fetcher\<close>

text \<open>\<^verbatim>\<open>parseInt(s)\<close> without a radix: leading whitespace, an optional sign, an optional
  \<^verbatim>\<open>0x\<close> prefix, then the longest run of digits; \<open>None\<close> is \<^verbatim>\<open>NaN\<close>. The result is an
  unbounded integer here (a double in JavaScript; the two agree wherever the cutoff below
  is a valid date).\<close>

definition digitValue :: "char \<Rightarrow> int option" where
  "digitValue c =
     (let n = (of_char c :: int) in
      if 48 \<le> n \<and> n \<le> 57 then Some (n - 48)
      else if 97 \<le> n \<and> n \<le> 122 then Some (n - 87)
      else if 65 \<le> n \<and> n \<le> 90 then Some (n - 55)
      else None)"

definition isDigit :: "int \<Rightarrow> char \<Rightarrow> bool" where
  "isDigit radix c = (case digitValue c of None \<Rightarrow> False | Some v \<Rightarrow> v < radix)"

definition digitsValue :: "int \<Rightarrow> string \<Rightarrow> int" where
  "digitsValue radix ds =
     foldl (\<lambda>acc c. acc * radix + (case digitValue c of None \<Rightarrow> 0 | Some v \<Rightarrow> v)) 0 ds"

definition parseInt :: "string \<Rightarrow> int option" where
  "parseInt s =
     (let t = dropWhile is_space s;
          neg = (t \<noteq> [] \<and> hd t = CHR ''-'');
          u = (if t \<noteq> [] \<and> (hd t = CHR ''-'' \<or> hd t = CHR ''+'') then tl t else t);
          hex = (case u of a # b # _ \<Rightarrow> a = CHR ''0'' \<and> (b = CHR ''x'' \<or> b = CHR ''X'') | _ \<Rightarrow> False);
          radix = (if hex then 16 else 10);
          ds = takeWhile (isDigit radix) (if hex then drop 2 u else u)
      in if ds = [] then None
         else Some ((if neg then - 1 else 1) * digitsValue radix ds))"

text \<open>\<^verbatim>\<open>parseInt(req.query.hours) || 1\<close>; the query parameter is a string or missing.\<close>

definition hoursOf :: "string option \<Rightarrow> int" where
  "hoursOf q =
     (case q of
        None \<Rightarrow> 1
      | Some s \<Rightarrow> (case parseInt s of None \<Rightarrow> 1 | Some n \<Rightarrow> if n = 0 then 1 else n))"

text \<open>\<^verbatim>\<open>cutoff = new Date(); cutoff.setHours(cutoff.getHours() - hours)\<close>. \<^verbatim>\<open>setHours\<close>
  works on the local wall clock: it takes the local time of the date, replaces its hour
  field by \<^verbatim>\<open>getHours() - hours\<close>, which moves the local time back by that many hours of
  3600000 ms, converts the result back from local time and clips it to the valid range.\<close>

definition cutoffDate :: "date_env \<Rightarrow> int \<Rightarrow> int option" where
  "cutoffDate env hours = timeClip (utc_time env (local_time env (now env) - hours * 3600000))"

text \<open>The variant loop of the history handler. The query object, with
  \<^verbatim>\<open>cutoff.toISOString()\<close> in it, is built inside the \<^verbatim>\<open>try\<close> block.\<close>

fun historyLoop :: "date_env \<Rightarrow> container \<Rightarrow> int option \<Rightarrow> string list \<Rightarrow> rawdoc list" where
  "historyLoop env c cutoff [] = []"
| "historyLoop env c cutoff (loc # rest) =
     (case toISOString env cutoff of
        Inl err \<Rightarrow> historyLoop env c cutoff rest
      | Inr cutIso \<Rightarrow>
          (case c (HistoryQuery loc cutIso) of
             Inl err \<Rightarrow> historyLoop env c cutoff rest
           | Inr resources \<Rightarrow>
               if resources \<noteq> [] then resources else historyLoop env c cutoff rest))"

text \<open>\<^verbatim>\<open>allResources.map(normalizeDoc)\<close>, outside any \<^verbatim>\<open>try\<close>: the first error ends it.\<close>

fun mapNormalizeDoc :: "rawdoc list \<Rightarrow> error + reading option list" where
  "mapNormalizeDoc [] = Inr []"
| "mapNormalizeDoc (d # ds) =
     (case normalizeDoc (Some d) of
        Inl e \<Rightarrow> Inl e
      | Inr r \<Rightarrow> (case mapNormalizeDoc ds of Inl e \<Rightarrow> Inl e | Inr rs \<Rightarrow> Inr (r # rs)))"

text \<open>\<^verbatim>\<open>GET /api/history/:location?hours=N\<close>\<close>

definition apiHistory ::
  "date_env \<Rightarrow> container option \<Rightarrow> string \<Rightarrow> string option \<Rightarrow> error + response" where
  "apiHistory env cont locationKey hoursParam =
     (case cont of
        None \<Rightarrow> Inr (Response 500 (ErrorBody ''Container not initialized''))
      | Some c \<Rightarrow>
          (let hours = hoursOf hoursParam;
               cutoff = cutoffDate env hours;
               allResources = historyLoop env c cutoff (locationVariants locationKey)
           in case mapNormalizeDoc allResources of
                Inl e \<Rightarrow> Inl e
              | Inr rs \<Rightarrow> Inr (Response 200 (ReadingsBody rs))))"

section \<open>Status aggregator\<close>

text \<open>The local variables of the \<^verbatim>\<open>/api/status\<close> handler. \<open>latestTimestamp\<close> is
  \<^verbatim>\<open>null\<close> (\<open>None\<close>) or a \<^verbatim>\<open>Date\<close>, itself valid or invalid.\<close>

record tally =
  locationData :: "(string \<times> reading) list"
  total :: nat
  safe :: nat
  caution :: nat
  unsafe :: nat
  latestTimestamp :: "int option option"

definition initTally :: tally where
  "initTally = \<lparr> locationData = [], total = 0, safe = 0, caution = 0, unsafe = 0,
                 latestTimestamp = None \<rparr>"

text \<open>\<^verbatim>\<open>ts > latestTimestamp\<close> on two dates: false as soon as one is invalid.\<close>

definition dateGreater :: "int option \<Rightarrow> int option \<Rightarrow> bool" where
  "dateGreater a b = (case (a, b) of (Some x, Some y) \<Rightarrow> x > y | _ \<Rightarrow> False)"

text \<open>The \<^verbatim>\<open>if (data.timestamp) { ... }\<close> block.\<close>

definition updateLatest :: "date_env \<Rightarrow> jsval \<Rightarrow> int option option \<Rightarrow> int option option" where
  "updateLatest env tsv latest =
     (if truthy tsv then
        (let ts = newDate env tsv in
         case latest of
           None \<Rightarrow> Some ts
         | Some l \<Rightarrow> if dateGreater ts l then Some ts else latest)
      else latest)"

text \<open>One round of the \<^verbatim>\<open>for (const loc of locations)\<close> loop, given what
  \<^verbatim>\<open>getLatestData(loc)\<close> returned. \<^verbatim>\<open>(data.safetyStatus || "").toLowerCase()\<close> throws
  for a truthy value that is not a string.\<close>

definition tallyStep :: "date_env \<Rightarrow> tally \<Rightarrow> string \<Rightarrow> reading option \<Rightarrow> error + tally" where
  "tallyStep env st loc fetched =
     (case fetched of
        None \<Rightarrow> Inr st
      | Some data \<Rightarrow>
          (let st1 = st \<lparr> locationData := locationData st @ [(loc, data)],
                          total := total st + 1 \<rparr>
           in case js_toLowerCase (js_or (safetyStatus data) (JStr [])) of
                Inl e \<Rightarrow> Inl e
              | Inr status \<Rightarrow>
                  (let st2 = (if status = ''safe'' then st1 \<lparr> safe := safe st1 + 1 \<rparr>
                              else if status = ''caution'' then st1 \<lparr> caution := caution st1 + 1 \<rparr>
                              else st1 \<lparr> unsafe := unsafe st1 + 1 \<rparr>)
                   in Inr (st2 \<lparr> latestTimestamp :=
                                  updateLatest env (timestamp data) (latestTimestamp st2) \<rparr>))))"

fun statusLoop ::
  "date_env \<Rightarrow> container option \<Rightarrow> tally \<Rightarrow> string list \<Rightarrow> error + tally" where
  "statusLoop env cont st [] = Inr st"
| "statusLoop env cont st (loc # rest) =
     (case tallyStep env st loc (getLatestData cont loc) of
        Inl e \<Rightarrow> Inl e
      | Inr st' \<Rightarrow> statusLoop env cont st' rest)"

text \<open>The \<^verbatim>\<open>if\<close> chain that starts from \<^verbatim>\<open>let systemStatus = "Unknown"\<close>.\<close>

definition deriveStatus :: "tally \<Rightarrow> string" where
  "deriveStatus st =
     (if total st = 0 then ''No Data''
      else if unsafe st > 0 then ''Unsafe''
      else if caution st > 0 then ''Caution''
      else if safe st = total st then ''Safe''
      else ''Unknown'')"

text \<open>\<^verbatim>\<open>latestTimestamp ? latestTimestamp.toISOString() : null\<close>\<close>

definition lastUpdateOf :: "date_env \<Rightarrow> int option option \<Rightarrow> error + jsval" where
  "lastUpdateOf env latest =
     (case latest of
        None \<Rightarrow> Inr JNull
      | Some d \<Rightarrow> (case toISOString env d of Inl e \<Rightarrow> Inl e | Inr s \<Rightarrow> Inr (JStr s)))"

definition summarize :: "date_env \<Rightarrow> tally \<Rightarrow> error + summary" where
  "summarize env st =
     (case lastUpdateOf env (latestTimestamp st) of
        Inl e \<Rightarrow> Inl e
      | Inr lu \<Rightarrow>
          Inr \<lparr> systemStatus = deriveStatus st,
                totalLocations = total st,
                safeLocations = safe st,
                cautionLocations = caution st,
                unsafeLocations = unsafe st,
                lastUpdate = lu,
                locations = locationData st \<rparr>)"

text \<open>\<^verbatim>\<open>GET /api/status\<close>\<close>

definition apiStatus :: "date_env \<Rightarrow> container option \<Rightarrow> error + response" where
  "apiStatus env cont =
     (case statusLoop env cont initTally locations3 of
        Inl e \<Rightarrow> Inl e
      | Inr st \<Rightarrow>
          (case summarize env st of
             Inl e \<Rightarrow> Inl e
           | Inr s \<Rightarrow> Inr (Response 200 (StatusBody s))))"

section \<open>Routes\<close>

text \<open>The paths registered with \<^verbatim>\<open>app.get\<close>, in the order of the file. A path is matched
  segment by segment, literal segments without regard to case, a \<^verbatim>\<open>:location\<close> parameter
  against any non-empty segment; one trailing slash is accepted.\<close>

datatype route =
    RouteData
  | RouteDataLocation string
  | RouteHistory string
  | RouteStatus
  | RouteDebug
  | RouteRoot

fun splitPath :: "string \<Rightarrow> string \<Rightarrow> string list" where
  "splitPath cur [] = [cur]"
| "splitPath cur (c # cs) =
     (if c = CHR ''/'' then cur # splitPath [] cs else splitPath (cur @ [c]) cs)"

definition segments :: "string \<Rightarrow> string list" where
  "segments p =
     (let ss = (case splitPath [] p of [] \<Rightarrow> [] | s # rest \<Rightarrow> if s = [] then rest else s # rest)
      in if ss \<noteq> [] \<and> last ss = [] then butlast ss else ss)"

definition matchRoute :: "string \<Rightarrow> route option" where
  "matchRoute p =
     (case segments p of
        [] \<Rightarrow> Some RouteRoot
      | [a, b] \<Rightarrow>
          if toLowerCase a = ''api'' \<and> toLowerCase b = ''data'' then Some RouteData
          else if toLowerCase a = ''api'' \<and> toLowerCase b = ''status'' then Some RouteStatus
          else if toLowerCase a = ''api'' \<and> toLowerCase b = ''debug'' then Some RouteDebug
          else None
      | [a, b, l] \<Rightarrow>
          if toLowerCase a = ''api'' \<and> toLowerCase b = ''data'' \<and> l \<noteq> []
          then Some (RouteDataLocation l)
          else if toLowerCase a = ''api'' \<and> toLowerCase b = ''history'' \<and> l \<noteq> []
          then Some (RouteHistory l)
          else None
      | _ \<Rightarrow> None)"

section \<open>A store that evaluates the queries\<close>

text \<open>
  Modelled from the spec: the store engine, an external collaborator of the repository
  ("a queryable time-series store accessed by parameterized filter-and-sort query, supporting
  equality filter on a location field, range filter + ascending/descending sort + limit on
  a timestamp field"). For the statements that speak of what a query selects, the three
  query texts of the source are evaluated over a list of stored documents:
  \<^item> \<^verbatim>\<open>WHERE c.location = @loc\<close> keeps the documents whose location is the string \<open>loc\<close>;
  \<^item> \<^verbatim>\<open>c.windowEnd >= @cut\<close>, with a string parameter, keeps the documents whose
    \<^verbatim>\<open>windowEnd\<close> is a string not below \<open>cut\<close> in string order;
  \<^item> \<^verbatim>\<open>ORDER BY c.windowEnd\<close> sorts by type first (undefined, null, boolean, number,
    string) and by value within a type;
  \<^item> \<^verbatim>\<open>OFFSET 0 LIMIT 1\<close> keeps the first row.
  A query for which \<open>failing\<close> holds throws instead.
\<close>

record store =
  docs :: "rawdoc list"
  failing :: "query \<Rightarrow> bool"

fun orderKey :: "jsval \<Rightarrow> nat \<times> int \<times> string" where
  "orderKey JUndefined = (0, 0, [])"
| "orderKey JNull = (1, 0, [])"
| "orderKey (JBool b) = (2, (if b then 1 else 0), [])"
| "orderKey (JNum n) = (3, n, [])"
| "orderKey (JStr s) = (4, 0, s)"

definition atLocation :: "store \<Rightarrow> string \<Rightarrow> rawdoc list" where
  "atLocation st loc = filter (\<lambda>d. raw_location d = JStr loc) (docs st)"

definition notBefore :: "string \<Rightarrow> rawdoc \<Rightarrow> bool" where
  "notBefore cutIso d = (case raw_windowEnd d of JStr w \<Rightarrow> cutIso \<le> w | _ \<Rightarrow> False)"

definition blankDoc :: "jsval \<Rightarrow> rawdoc" where
  "blankDoc l = \<lparr> raw_location = l, raw_windowEnd = JUndefined, raw_timestamp = JUndefined,
       raw_avgIceThickness = JUndefined, raw_avgSurfaceTemperature = JUndefined,
       raw_maxSnowAccumulation = JUndefined, raw_avgExternalTemperature = JUndefined,
       raw_safetyStatus = JUndefined, raw_readingCount = JUndefined \<rparr>"

definition evalQuery :: "store \<Rightarrow> query \<Rightarrow> rawdoc list" where
  "evalQuery st q =
     (case q of
        LatestQuery loc \<Rightarrow>
          take 1 (rev (sort_key (\<lambda>d. orderKey (raw_windowEnd d)) (atLocation st loc)))
      | HistoryQuery loc cutIso \<Rightarrow>
          sort_key (\<lambda>d. orderKey (raw_windowEnd d)) (filter (notBefore cutIso) (atLocation st loc))
      | DistinctLocations \<Rightarrow>
          map blankDoc (remdups (map raw_location (docs st))))"

definition runQuery :: "store \<Rightarrow> container" where
  "runQuery st q = (if failing st q then Inl StoreError else Inr (evalQuery st q))"

section \<open>The classification of a reading\<close>

text \<open>The three classes of the specification: a status that is, without regard to case,
  \<^verbatim>\<open>safe\<close> or \<^verbatim>\<open>caution\<close>; anything else, a missing status included, is unsafe.\<close>

datatype safety = Safe | Caution | Unsafe

definition classify :: "reading \<Rightarrow> safety" where
  "classify r =
     (case safetyStatus r of
        JStr s \<Rightarrow>
          if toLowerCase s = ''safe'' then Safe
          else if toLowerCase s = ''caution'' then Caution
          else Unsafe
      | _ \<Rightarrow> Unsafe)"

text \<open>The readings that \<^verbatim>\<open>getLatestData\<close> finds for a list of locations, in order.\<close>

definition latestReadings :: "container option \<Rightarrow> string list \<Rightarrow> reading list" where
  "latestReadings cont locs = List.map_filter (getLatestData cont) locs"

text \<open>A status on which \<^verbatim>\<open>(v || "").toLowerCase()\<close> does not throw, and a timestamp
  that does not leave an invalid date behind.\<close>

fun stringOrFalsy :: "jsval \<Rightarrow> bool" where
  "stringOrFalsy (JStr s) = True"
| "stringOrFalsy v = (\<not> truthy v)"

definition validTimestamp :: "date_env \<Rightarrow> jsval \<Rightarrow> bool" where
  "validTimestamp env v = (if truthy v then newDate env v \<noteq> None else True)"

section \<open>Which variant answers\<close>

text \<open>A variant yields when its query does not throw and selects at least one stored
  document: for the latest-reading query, and for the history query with a given cutoff.\<close>

definition latestYields :: "store \<Rightarrow> string \<Rightarrow> bool" where
  "latestYields st v = (\<not> failing st (LatestQuery v) \<and> atLocation st v \<noteq> [])"


section \<open>Sample data\<close>

text \<open>The few timestamps used below, each with its instant.\<close>

definition sampleInstants :: "(string \<times> int) list" where
  "sampleInstants =
     [(''2025-11-03T09:00:00.000Z'', 1762160400000),
      (''2025-11-03T10:00:00.000Z'', 1762164000000),
      (''2025-11-03T11:00:00.000Z'', 1762167600000),
      (''2025-11-03T11:30:00.000Z'', 1762169400000),
      (''2025-11-03T11:45:00.000Z'', 1762170300000)]"

definition sampleIso :: "int \<Rightarrow> string" where
  "sampleIso t =
     (case find (\<lambda>p. snd p = t) sampleInstants of
        Some p \<Rightarrow> fst p
      | None \<Rightarrow> ''1970-01-01T00:00:00.000Z'')"

text \<open>A clock stopped at 2025-11-03T12:00:00.000Z on a server whose local time is
  UTC.\<close>

definition sampleClock :: date_env where
  "sampleClock =
     \<lparr> now = 1762171200000,
       date_parse = map_of sampleInstants,
       iso_string = sampleIso,
       local_time = (\<lambda>t. t),
       utc_time = (\<lambda>t. t) \<rparr>"


text \<open>A store client that finds nothing, and one whose every query throws.\<close>

definition emptyContainer :: container where
  "emptyContainer q = Inr []"

definition brokenContainer :: container where
  "brokenContainer q = Inl StoreError"

text \<open>A stored document with a location, a window end and a safety status.\<close>

definition sampleDoc :: "string \<Rightarrow> string \<Rightarrow> string \<Rightarrow> rawdoc" where
  "sampleDoc loc wend status =
     (blankDoc (JStr loc)) \<lparr> raw_windowEnd := JStr wend, raw_safetyStatus := JStr status \<rparr>"

text \<open>The normalized shape of \<open>sampleDoc\<close>.\<close>

definition sampleReading :: "string \<Rightarrow> string \<Rightarrow> string \<Rightarrow> reading" where
  "sampleReading loc wend status =
     \<lparr> location = loc, timestamp = JStr wend, avgIceThickness = JUndefined,
       avgSurfaceTemperature = JUndefined, maxSnowAccumulation = JUndefined,
       avgExternalTemperature = JUndefined, safetyStatus = JStr status,
       readingCount = JUndefined \<rparr>"

text \<open>A store client that hands back a record without a location: first under the key
  \<^verbatim>\<open>nac\<close> for the latest-reading query, and next to a proper record for the history query.\<close>

definition mixedContainer :: container where
  "mixedContainer q =
     (case q of
        LatestQuery loc \<Rightarrow>
          if loc = ''nac'' then Inr [blankDoc JNull]
          else if loc = ''NAC'' then Inr [sampleDoc ''NAC'' ''2025-11-03T11:30:00.000Z'' ''Safe'']
          else Inr []
      | HistoryQuery loc cutIso \<Rightarrow>
          if loc = ''nac'' then Inr [sampleDoc ''nac'' ''2025-11-03T11:00:00.000Z'' ''Safe'', blankDoc JNull]
          else Inr []
      | DistinctLocations \<Rightarrow> Inr [])"

text \<open>A store with one record for each location, the second one under its display
  name.\<close>

definition threeStore :: "string \<Rightarrow> string \<Rightarrow> string \<Rightarrow> store" where
  "threeStore a b c =
     \<lparr> docs = [sampleDoc ''dows-lake'' ''2025-11-03T11:00:00.000Z'' a,
               sampleDoc ''Fifth Avenue'' ''2025-11-03T11:30:00.000Z'' b,
               sampleDoc ''nac'' ''2025-11-03T09:00:00.000Z'' c],
       failing = (\<lambda>q. False) \<rparr>"

text \<open>A store whose query under the canonical key throws, with one record under the
  display name.\<close>

definition fallbackStore :: store where
  "fallbackStore =
     \<lparr> docs = [sampleDoc ''Dow's Lake'' ''2025-11-03T11:00:00.000Z'' ''Safe''],
       failing = (\<lambda>q. q = LatestQuery ''dows-lake'') \<rparr>"

text \<open>A store with records under both names of one location: three under \<^verbatim>\<open>nac\<close>, from
  three hours, half an hour and one hour before the sample clock's time, and a newer one
  under \<^verbatim>\<open>NAC\<close>.\<close>

definition twoNamesStore :: store where
  "twoNamesStore =
     \<lparr> docs = [sampleDoc ''NAC'' ''2025-11-03T11:45:00.000Z'' ''Unsafe'',
               sampleDoc ''nac'' ''2025-11-03T09:00:00.000Z'' ''Safe'',
               sampleDoc ''nac'' ''2025-11-03T11:30:00.000Z'' ''Caution'',
               sampleDoc ''nac'' ''2025-11-03T11:00:00.000Z'' ''Safe''],
       failing = (\<lambda>q. False) \<rparr>"

text \<open>A store whose only record is three hours old.\<close>

definition oldRecordStore :: store where
  "oldRecordStore =
     \<lparr> docs = [sampleDoc ''nac'' ''2025-11-03T09:00:00.000Z'' ''Safe''],
       failing = (\<lambda>q. False) \<rparr>"








section \<open>Strings\<close>

lemma toLowerChar_not_upper:
  "\<not> (65 \<le> (of_char (toLowerChar c) :: nat) \<and> (of_char (toLowerChar c) :: nat) \<le> 90)"
  by (simp add: toLowerChar_def Let_def)

lemma replace_spaces_no_space: "c \<in> set (replace_spaces s) \<Longrightarrow> \<not> is_space c"
proof (induction s rule: replace_spaces.induct)
  case 1
  then show ?case by simp
next
  case (2 c cs)
  then show ?case by (auto simp: is_space_def split: if_splits)
qed

lemma replace_spaces_subset: "set (replace_spaces s) \<subseteq> insert (CHR ''-'') (set s)"
proof (induction s rule: replace_spaces.induct)
  case 1
  then show ?case by simp
next
  case (2 c cs)
  have "set (dropWhile is_space cs) \<subseteq> set cs"
    by (auto dest: set_dropWhileD)
  with 2 show ?case by (auto split: if_splits)
qed

lemma replace_spaces_run:
  assumes "ws \<noteq> []" "\<forall>c\<in>set ws. is_space c" "rest = [] \<or> \<not> is_space (hd rest)"
  shows "replace_spaces (ws @ rest) = CHR ''-'' # replace_spaces rest"
proof (cases ws)
  case Nil
  with assms show ?thesis by simp
next
  case (Cons w ws')
  have "dropWhile is_space (ws' @ rest) = dropWhile is_space rest"
    using assms(2) Cons by (intro dropWhile_append2) simp
  also have "\<dots> = rest"
    using assms(3) by (simp add: dropWhile_eq_self_iff)
  finally show ?thesis using assms(2) Cons by simp
qed

lemma normalizeLocation_chars:
  assumes "c \<in> set (normalizeLocation s)"
  shows "\<not> is_space c \<and> c \<noteq> CHR 0x27 \<and> \<not> (65 \<le> (of_char c :: nat) \<and> (of_char c :: nat) \<le> 90)"
proof -
  from assms have ns: "\<not> is_space c"
    unfolding normalizeLocation_def by (rule replace_spaces_no_space)
  from assms replace_spaces_subset
  have "c = CHR ''-'' \<or> c \<in> set (remove_apostrophes (toLowerCase s))"
    unfolding normalizeLocation_def by blast
  then show ?thesis
  proof
    assume "c = CHR ''-''"
    with ns show ?thesis by simp
  next
    assume "c \<in> set (remove_apostrophes (toLowerCase s))"
    then have "c \<noteq> CHR 0x27" and "c \<in> toLowerChar ` set s"
      by (auto simp: remove_apostrophes_def toLowerCase_def)
    with ns toLowerChar_not_upper show ?thesis by blast
  qed
qed

lemma normalizeDoc_string:
  "raw_location d = JStr s \<Longrightarrow>
   \<exists>r. normalizeDoc (Some d) = Inr (Some r) \<and> location r = normalizeLocation s"
  by (simp add: normalizeDoc_def normalizeLocation_def)

section \<open>Errors of the normalizer\<close>

lemma normalizeDoc_error:
  "normalizeDoc (Some d) = Inl e \<Longrightarrow> e = TypeError \<and> (\<forall>s. raw_location d \<noteq> JStr s)"
  by (cases "raw_location d") (auto simp: normalizeDoc_def)

lemma normalizeDoc_not_string:
  "\<forall>s. raw_location d \<noteq> JStr s \<Longrightarrow> normalizeDoc (Some d) = Inl TypeError"
  by (cases "raw_location d") (auto simp: normalizeDoc_def)

lemma mapNormalizeDoc_bad:
  "d \<in> set ds \<Longrightarrow> \<forall>s. raw_location d \<noteq> JStr s \<Longrightarrow> mapNormalizeDoc ds = Inl TypeError"
proof (induction ds)
  case Nil
  then show ?case by simp
next
  case (Cons x xs)
  show ?case
  proof (cases "normalizeDoc (Some x)")
    case (Inl e)
    then show ?thesis using normalizeDoc_error [OF Inl] by simp
  next
    case (Inr r)
    with Cons have "d \<in> set xs" using normalizeDoc_not_string by fastforce
    with Cons Inr show ?thesis by simp
  qed
qed

lemma historyLoop_nothing:
  assumes "\<And>v cutIso. v \<in> set vs \<Longrightarrow> toISOString env cutoff = Inr cutIso \<Longrightarrow>
             c (HistoryQuery v cutIso) = Inr [] \<or> (\<exists>e. c (HistoryQuery v cutIso) = Inl e)"
  shows "historyLoop env c cutoff vs = []"
  using assms
proof (induction vs)
  case Nil
  then show ?case by simp
next
  case (Cons v vs)
  then have rest: "historyLoop env c cutoff vs = []" by simp
  show ?case
  proof (cases "toISOString env cutoff")
    case (Inl e)
    with rest show ?thesis by simp
  next
    case (Inr cutIso)
    from Cons.prems [of v cutIso] Inr
    have "c (HistoryQuery v cutIso) = Inr [] \<or> (\<exists>e. c (HistoryQuery v cutIso) = Inl e)"
      by simp
    with Inr rest show ?thesis by auto
  qed
qed

section \<open>The loop of the status handler\<close>

lemma tallyStep_None: "tallyStep env st loc None = Inr st"
  by (simp add: tallyStep_def)

lemma tallyStep_Some:
  assumes "tallyStep env st loc (Some data) = Inr st'"
  shows "total st' = total st + 1
       \<and> safe st' = safe st + (if classify data = Safe then 1 else 0)
       \<and> caution st' = caution st + (if classify data = Caution then 1 else 0)
       \<and> unsafe st' = unsafe st + (if classify data = Unsafe then 1 else 0)"
proof (cases "safetyStatus data")
  case (JStr s)
  with assms show ?thesis
    by (cases "s = []") (auto simp: tallyStep_def js_or_def classify_def toLowerCase_def Let_def)
qed (use assms in \<open>auto simp: tallyStep_def js_or_def classify_def toLowerCase_def Let_def
      split: if_splits\<close>)

lemma statusLoop_counts:
  "statusLoop env cont st locs = Inr st' \<Longrightarrow>
     total st' = total st + length (latestReadings cont locs)
   \<and> safe st' = safe st + length (filter (\<lambda>r. classify r = Safe) (latestReadings cont locs))
   \<and> caution st' = caution st + length (filter (\<lambda>r. classify r = Caution) (latestReadings cont locs))
   \<and> unsafe st' = unsafe st + length (filter (\<lambda>r. classify r = Unsafe) (latestReadings cont locs))"
proof (induction locs arbitrary: st)
  case Nil
  then show ?case by (simp add: latestReadings_def)
next
  case (Cons loc locs)
  from Cons.prems obtain st1 where
    step: "tallyStep env st loc (getLatestData cont loc) = Inr st1" and
    rest: "statusLoop env cont st1 locs = Inr st'"
    by (auto split: sum.splits)
  note ih = Cons.IH [OF rest]
  show ?case
  proof (cases "getLatestData cont loc")
    case None
    with step have "st1 = st" by (simp add: tallyStep_None)
    with ih None show ?thesis by (simp add: latestReadings_def)
  next
    case (Some data)
    with step have "tallyStep env st loc (Some data) = Inr st1" by simp
    from tallyStep_Some [OF this] ih Some show ?thesis
      by (simp add: latestReadings_def)
  qed
qed

lemma tallyStep_ok:
  assumes "stringOrFalsy (safetyStatus data)"
  shows "\<exists>st'. tallyStep env st loc (Some data) = Inr st'
           \<and> latestTimestamp st' = updateLatest env (timestamp data) (latestTimestamp st)"
  using assms by (cases "safetyStatus data") (auto simp: tallyStep_def js_or_def Let_def)

lemma updateLatest_valid:
  "validTimestamp env v \<Longrightarrow> l \<noteq> Some None \<Longrightarrow> updateLatest env v l \<noteq> Some None"
  by (auto simp: updateLatest_def validTimestamp_def Let_def split: option.splits if_splits)

lemma statusLoop_ok:
  assumes "\<forall>r\<in>set (latestReadings cont locs). stringOrFalsy (safetyStatus r) \<and> validTimestamp env (timestamp r)"
      and "latestTimestamp st \<noteq> Some None"
  shows "\<exists>st'. statusLoop env cont st locs = Inr st' \<and> latestTimestamp st' \<noteq> Some None"
  using assms
proof (induction locs arbitrary: st)
  case Nil
  then show ?case by simp
next
  case (Cons loc locs)
  show ?case
  proof (cases "getLatestData cont loc")
    case None
    with Cons.prems have "\<forall>r\<in>set (latestReadings cont locs). stringOrFalsy (safetyStatus r) \<and> validTimestamp env (timestamp r)"
      by (simp add: latestReadings_def)
    from Cons.IH [OF this Cons.prems(2)] None show ?thesis
      by (simp add: tallyStep_None)
  next
    case (Some data)
    with Cons.prems have d: "stringOrFalsy (safetyStatus data)" "validTimestamp env (timestamp data)"
      and r: "\<forall>r\<in>set (latestReadings cont locs). stringOrFalsy (safetyStatus r) \<and> validTimestamp env (timestamp r)"
      by (simp_all add: latestReadings_def)
    from tallyStep_ok [OF d(1)] obtain st1 where
      s1: "tallyStep env st loc (Some data) = Inr st1"
      and l1: "latestTimestamp st1 = updateLatest env (timestamp data) (latestTimestamp st)"
      by blast
    from updateLatest_valid [OF d(2) Cons.prems(2)] l1 have "latestTimestamp st1 \<noteq> Some None"
      by simp
    from Cons.IH [OF r this] Some s1 show ?thesis by simp
  qed
qed

lemma summarize_ok:
  "latestTimestamp st \<noteq> Some None \<Longrightarrow> \<exists>s. summarize env st = Inr s"
  by (auto simp: summarize_def lastUpdateOf_def toISOString_def split: option.splits)

lemma summarize_fields:
  "summarize env st = Inr s \<Longrightarrow>
     systemStatus s = deriveStatus st \<and> totalLocations s = total st \<and> safeLocations s = safe st
     \<and> cautionLocations s = caution st \<and> unsafeLocations s = unsafe st"
  by (auto simp: summarize_def split: sum.splits)

lemma apiStatus_Inr:
  assumes "apiStatus env cont = Inr resp"
  obtains st s where "statusLoop env cont initTally locations3 = Inr st"
    and "summarize env st = Inr s" and "resp = Response 200 (StatusBody s)"
  using assms by (auto simp: apiStatus_def split: sum.splits)

lemma apiStatus_exists:
  assumes "\<forall>r\<in>set (latestReadings cont locations3). stringOrFalsy (safetyStatus r) \<and> validTimestamp env (timestamp r)"
  shows "\<exists>resp. apiStatus env cont = Inr resp"
proof -
  have "latestTimestamp initTally \<noteq> Some None" by (simp add: initTally_def)
  from statusLoop_ok [OF assms this] obtain st where
    "statusLoop env cont initTally locations3 = Inr st" "latestTimestamp st \<noteq> Some None"
    by blast
  with summarize_ok [of st env] show ?thesis
    by (auto simp: apiStatus_def)
qed

lemma tallyStep_sum:
  assumes "tallyStep env st loc fetched = Inr st'"
      and "safe st + caution st + unsafe st = total st"
  shows "safe st' + caution st' + unsafe st' = total st'"
proof (cases fetched)
  case None
  with assms show ?thesis by (simp add: tallyStep_None)
next
  case (Some data)
  with assms(1) have "tallyStep env st loc (Some data) = Inr st'" by simp
  from tallyStep_Some [OF this] assms(2) show ?thesis
    by (cases "classify data") simp_all
qed

lemma statusLoop_sum:
  "statusLoop env cont st locs = Inr st' \<Longrightarrow> safe st + caution st + unsafe st = total st
     \<Longrightarrow> safe st' + caution st' + unsafe st' = total st'"
proof (induction locs arbitrary: st)
  case Nil
  then show ?case by simp
next
  case (Cons loc locs)
  from Cons.prems(1) obtain st1 where
    step: "tallyStep env st loc (getLatestData cont loc) = Inr st1" and
    rest: "statusLoop env cont st1 locs = Inr st'"
    by (auto split: sum.splits)
  from tallyStep_sum [OF step Cons.prems(2)] Cons.IH [OF rest] show ?case by simp
qed

section \<open>The fetchers on the evaluating store\<close>

lemma atLocation_location: "d \<in> set (atLocation st v) \<Longrightarrow> raw_location d = JStr v"
  by (simp add: atLocation_def)

lemma newest_first:
  assumes "xs \<noteq> []"
  shows "\<exists>d. take 1 (rev (sort_key k xs)) = [d] \<and> d \<in> set xs \<and> (\<forall>d'\<in>set xs. k d' \<le> k d)"
proof -
  from assms have "sort_key k xs \<noteq> []" by (metis length_sort length_0_conv)
  then obtain zs z where ys: "sort_key k xs = zs @ [z]" by (metis rev_exhaust)
  then have 1: "take 1 (rev (sort_key k xs)) = [z]" by simp
  have mem: "set xs = set (zs @ [z])" using ys by (metis set_sort)
  have "sorted (map k (zs @ [z]))" using ys by (metis sorted_sort_key)
  then have "\<forall>x\<in>set zs. k x \<le> k z" by (simp add: sorted_append)
  with mem have 3: "\<forall>d'\<in>set xs. k d' \<le> k z" by auto
  from mem have 2: "z \<in> set xs" by simp
  from 1 2 3 show ?thesis by blast
qed

lemma latestLoop_nothing:
  assumes "\<forall>v\<in>set vs. c (LatestQuery v) = Inr [] \<or> (\<exists>e. c (LatestQuery v) = Inl e)"
  shows "latestLoop c vs = None"
  using assms by (induction vs) auto

lemma latestLoop_runQuery:
  "(case find (latestYields st) vs of
      None \<Rightarrow> latestLoop (runQuery st) vs = None
    | Some v \<Rightarrow>
        (\<exists>d r. d \<in> set (atLocation st v)
           \<and> (\<forall>d'\<in>set (atLocation st v). orderKey (raw_windowEnd d') \<le> orderKey (raw_windowEnd d))
           \<and> normalizeDoc (Some d) = Inr (Some r)
           \<and> latestLoop (runQuery st) vs = Some r))"
proof (induction vs)
  case Nil
  then show ?case by simp
next
  case (Cons v vs)
  show ?case
  proof (cases "latestYields st v")
    case True
    then have nf: "\<not> failing st (LatestQuery v)" and ne: "atLocation st v \<noteq> []"
      by (simp_all add: latestYields_def)
    from newest_first [OF ne, of "\<lambda>d. orderKey (raw_windowEnd d)"] obtain d where
      d: "evalQuery st (LatestQuery v) = [d]" "d \<in> set (atLocation st v)"
         "\<forall>d'\<in>set (atLocation st v). orderKey (raw_windowEnd d') \<le> orderKey (raw_windowEnd d)"
      by (auto simp: evalQuery_def)
    from normalizeDoc_string [OF atLocation_location [OF d(2)]] obtain r where
      r: "normalizeDoc (Some d) = Inr (Some r)" by blast
    from nf d(1) r have "latestLoop (runQuery st) (v # vs) = Some r"
      by (simp add: runQuery_def)
    with True d r show ?thesis by auto
  next
    case False
    then have "failing st (LatestQuery v) \<or> evalQuery st (LatestQuery v) = []"
      by (auto simp: latestYields_def evalQuery_def)
    then have "latestLoop (runQuery st) (v # vs) = latestLoop (runQuery st) vs"
      by (auto simp: runQuery_def)
    with False Cons show ?thesis by (auto split: option.splits simp del: latestLoop.simps)
  qed
qed



section \<open>Inputs that make a handler throw or give up\<close>

text \<open>A status that is neither a string nor falsy ends the status handler with a
  \<^verbatim>\<open>TypeError\<close>; shown here for the first location.\<close>

lemma apiStatus_non_string_status:
  assumes "getLatestData cont ''dows-lake'' = Some data"
      and "\<not> stringOrFalsy (safetyStatus data)"
  shows "apiStatus env cont = Inl TypeError"
proof -
  from assms(2) have "js_toLowerCase (js_or (safetyStatus data) (JStr [])) = Inl TypeError"
    by (cases "safetyStatus data") (auto simp: js_or_def)
  then have "tallyStep env initTally ''dows-lake'' (Some data) = Inl TypeError"
    by (simp add: tallyStep_def Let_def)
  with assms(1) show ?thesis
    by (simp add: apiStatus_def locations3_def)
qed

text \<open>A cutoff outside the range of valid dates makes \<^verbatim>\<open>toISOString\<close> throw in every round
  of the history loop; the response is the empty array.\<close>

lemma historyLoop_invalid_cutoff: "historyLoop env c None vs = []"
  by (induction vs) (simp_all add: toISOString_def)

lemma apiHistory_invalid_cutoff:
  "cutoffDate env (hoursOf h) = None \<Longrightarrow>
   apiHistory env (Some c) key h = Inr (Response 200 (ReadingsBody []))"
  by (simp add: apiHistory_def historyLoop_invalid_cutoff)

lemma classify_cases:
  "(classify r = Safe) = (\<exists>s. safetyStatus r = JStr s \<and> toLowerCase s = ''safe'')"
  "(classify r = Caution) = (\<exists>s. safetyStatus r = JStr s \<and> toLowerCase s = ''caution'')"
  by (auto simp: classify_def split: jsval.splits)

section \<open>Route parameters, the hours parameter and the window\<close>

lemma segments_nonempty_param:
  "matchRoute p = Some (RouteDataLocation l) \<or> matchRoute p = Some (RouteHistory l) \<Longrightarrow> l \<noteq> []"
  by (auto simp: matchRoute_def split: list.splits if_splits)





lemma statusLoop_runs:
  assumes "\<forall>r\<in>set (latestReadings cont locs). stringOrFalsy (safetyStatus r)"
  shows "\<exists>st'. statusLoop env cont st locs = Inr st'"
  using assms
proof (induction locs arbitrary: st)
  case Nil
  then show ?case by simp
next
  case (Cons loc locs)
  show ?case
  proof (cases "getLatestData cont loc")
    case None
    with Cons.prems have "\<forall>r\<in>set (latestReadings cont locs). stringOrFalsy (safetyStatus r)"
      by (simp add: latestReadings_def)
    from Cons.IH [OF this] None show ?thesis
      by (simp add: tallyStep_None)
  next
    case (Some data)
    with Cons.prems have d: "stringOrFalsy (safetyStatus data)"
      and r: "\<forall>r\<in>set (latestReadings cont locs). stringOrFalsy (safetyStatus r)"
      by (simp_all add: latestReadings_def)
    from tallyStep_ok [OF d] obtain st1 where "tallyStep env st loc (Some data) = Inr st1"
      by blast
    with Cons.IH [OF r] Some show ?thesis by simp
  qed
qed

lemma apiStatus_exists_iff_valid:
  assumes "\<forall>r\<in>set (latestReadings cont locations3). stringOrFalsy (safetyStatus r)"
      and "\<forall>r\<in>set (latestReadings cont locations3). validTimestamp env (timestamp r)"
  shows "\<exists>resp. apiStatus env cont = Inr resp"
  using assms by (intro apiStatus_exists) blast

section \<open>Properties of the server\<close>

text \<open>
  C3, as amended. Location normalization lower-cases the raw string, removes every
  apostrophe and replaces every maximal run of whitespace by one hyphen; it does not trim.
  So the result holds no whitespace, no apostrophe and no upper-case letter, and
  \<^verbatim>\<open>"Dow's Lake"\<close>, \<^verbatim>\<open>"dows-lake"\<close> and \<^verbatim>\<open>"Dows Lake"\<close> normalize to \<^verbatim>\<open>"dows-lake"\<close>, while
  \<^verbatim>\<open>" Dow's   Lake "\<close> normalizes to \<^verbatim>\<open>"-dows-lake-"\<close>: the whitespace at either end
  becomes a hyphen too.
\<close>

theorem normalizeLocation_amended:
  "(\<forall>d s. raw_location d = JStr s \<longrightarrow>
      (\<exists>r. normalizeDoc (Some d) = Inr (Some r) \<and> location r = normalizeLocation s))
   \<and> (\<forall>s c. c \<in> set (normalizeLocation s) \<longrightarrow>
         \<not> is_space c \<and> c \<noteq> CHR 0x27 \<and> \<not> (65 \<le> (of_char c :: nat) \<and> (of_char c :: nat) \<le> 90))
   \<and> (\<forall>ws rest. ws \<noteq> [] \<and> (\<forall>c\<in>set ws. is_space c) \<and> (rest = [] \<or> \<not> is_space (hd rest)) \<longrightarrow>
         replace_spaces (ws @ rest) = CHR ''-'' # replace_spaces rest)
   \<and> normalizeLocation ''Dow's Lake'' = ''dows-lake''
   \<and> normalizeLocation ''dows-lake'' = ''dows-lake''
   \<and> normalizeLocation ''Dows Lake'' = ''dows-lake''
   \<and> normalizeLocation '' Dow's   Lake '' = ''-dows-lake-''"
proof -
  have ex: "normalizeLocation ''Dow's Lake'' = ''dows-lake''
      \<and> normalizeLocation ''dows-lake'' = ''dows-lake''
      \<and> normalizeLocation ''Dows Lake'' = ''dows-lake''
      \<and> normalizeLocation '' Dow's   Lake '' = ''-dows-lake-''"
    by code_simp
  show ?thesis
    using ex normalizeDoc_string normalizeLocation_chars replace_spaces_run by blast
qed

theorem normalizeLocation_amended_witness:
  "\<exists>r. normalizeDoc (Some (blankDoc (JStr '' Dow's   Lake ''))) = Inr (Some r)
       \<and> location r = ''-dows-lake-''"
proof -
  have "raw_location (blankDoc (JStr '' Dow's   Lake '')) = JStr '' Dow's   Lake ''"
    by (simp add: blankDoc_def)
  with normalizeLocation_amended show ?thesis by metis
qed

theorem normalizeLocation_padded_counterexample:
  "normalizeLocation '' Dow's   Lake '' \<noteq> ''dows-lake''"
  by code_simp

text \<open>
  C1, as amended. When the store client is not configured, \<^verbatim>\<open>getLatestData\<close> returns
  \<^verbatim>\<open>null\<close>, its value for "no data": \<^verbatim>\<open>GET /api/data/:location\<close> answers HTTP 404 with
  \<^verbatim>\<open>{error: "No data for location"}\<close>, the response it gives for a configured store without
  a matching record, and \<^verbatim>\<open>GET /api/data\<close> answers an empty mapping.
\<close>

theorem unconfigured_latest_amended:
  "getLatestData None loc = None
   \<and> apiDataLocation None loc = Response 404 (ErrorBody ''No data for location'')
   \<and> apiDataLocation None loc = apiDataLocation (Some emptyContainer) loc
   \<and> apiData None = Response 200 (DataBody [])"
proof -
  have "latestLoop emptyContainer vs = None" for vs
    by (induction vs) (auto simp: emptyContainer_def)
  then show ?thesis
    by (simp add: apiDataLocation_def apiData_def getLatestData_def locations3_def)
qed

theorem unconfigured_latest_counterexample:
  "apiDataLocation None ''dows-lake'' = Response 404 (ErrorBody ''No data for location'')
   \<and> apiDataLocation None ''dows-lake'' = apiDataLocation (Some emptyContainer) ''dows-lake''"
proof -
  have "latestLoop emptyContainer vs = None" for vs
    by (induction vs) (auto simp: emptyContainer_def)
  then show ?thesis
    by (simp add: apiDataLocation_def getLatestData_def)
qed

text \<open>
  C6. \<^verbatim>\<open>server.js\<close> registers no route for \<^verbatim>\<open>/api/health\<close>, the liveness endpoint that the
  repository's README documents: the request matches none of the routes.
\<close>

theorem health_route_missing:
  "matchRoute ''/api/health'' = None"
  by code_simp

text \<open>
  C10. \<^verbatim>\<open>normalizeDoc\<close> returns \<^verbatim>\<open>null\<close> for a missing record and a reading for a record
  whose location is a string; for a record whose location is missing or not a string it
  throws. In \<^verbatim>\<open>getLatestData\<close> the throw is caught with the variant's query: the loop goes
  on with the next variant. The history handler maps \<^verbatim>\<open>normalizeDoc\<close> over the result
  outside any handler: one such record among the results makes the whole request fail.
\<close>

theorem normalizeDoc_partial:
  "normalizeDoc None = Inr None
   \<and> (\<forall>d. (\<exists>s. raw_location d = JStr s) \<longrightarrow> (\<exists>r. normalizeDoc (Some d) = Inr (Some r)))
   \<and> (\<forall>d. (\<forall>s. raw_location d \<noteq> JStr s) \<longrightarrow> normalizeDoc (Some d) = Inl TypeError)
   \<and> (\<forall>c v rest d ds. c (LatestQuery v) = Inr (d # ds) \<and> (\<forall>s. raw_location d \<noteq> JStr s) \<longrightarrow>
         latestLoop c (v # rest) = latestLoop c rest)
   \<and> (\<forall>env c key h d.
         d \<in> set (historyLoop env c (cutoffDate env (hoursOf h)) (locationVariants key))
         \<and> (\<forall>s. raw_location d \<noteq> JStr s) \<longrightarrow>
         apiHistory env (Some c) key h = Inl TypeError)"
proof -
  have a: "normalizeDoc None = Inr None"
    by (simp add: normalizeDoc_def)
  have b: "\<exists>r. normalizeDoc (Some d) = Inr (Some r)" if "\<exists>s. raw_location d = JStr s" for d
    using that normalizeDoc_string by blast
  have c: "latestLoop c (v # rest) = latestLoop c rest"
    if "c (LatestQuery v) = Inr (d # ds)" "\<forall>s. raw_location d \<noteq> JStr s" for c v rest d ds
    using that normalizeDoc_not_string [of d] by simp
  have d: "apiHistory env (Some c) key h = Inl TypeError"
    if "d \<in> set (historyLoop env c (cutoffDate env (hoursOf h)) (locationVariants key))"
       "\<forall>s. raw_location d \<noteq> JStr s" for env c key h d
    using mapNormalizeDoc_bad [OF that] by (simp add: apiHistory_def)
  show ?thesis
    using a b c d normalizeDoc_not_string by blast
qed

theorem normalizeDoc_partial_witness:
  "getLatestData (Some mixedContainer) ''nac'' = latestLoop mixedContainer [''NAC'']
   \<and> (\<exists>r. getLatestData (Some mixedContainer) ''nac'' = Some r \<and> location r = ''nac'')
   \<and> apiHistory sampleClock (Some mixedContainer) ''nac'' (Some ''2'') = Inl TypeError"
proof -
  have lv: "locationVariants ''nac'' = [''nac'', ''NAC'']"
    by (simp add: locationVariants_def aliasOf_def)
  have q: "mixedContainer (LatestQuery ''nac'') = Inr [blankDoc JNull]"
    by (simp add: mixedContainer_def)
  have bad: "\<forall>s. raw_location (blankDoc JNull) \<noteq> JStr s"
    by (simp add: blankDoc_def)
  from normalizeDoc_partial q bad
  have "latestLoop mixedContainer (''nac'' # [''NAC'']) = latestLoop mixedContainer [''NAC'']"
    by blast
  then have 1: "getLatestData (Some mixedContainer) ''nac'' = latestLoop mixedContainer [''NAC'']"
    by (simp add: getLatestData_def lv)
  have loc: "raw_location (sampleDoc ''NAC'' ''2025-11-03T11:30:00.000Z'' ''Safe'') = JStr ''NAC''"
    by (simp add: sampleDoc_def blankDoc_def)
  have nl: "normalizeLocation ''NAC'' = ''nac''"
    by code_simp
  from normalizeDoc_string [OF loc] nl
  have 2: "\<exists>r. latestLoop mixedContainer [''NAC''] = Some r \<and> location r = ''nac''"
    by (auto simp: mixedContainer_def)
  have hist: "historyLoop sampleClock mixedContainer (cutoffDate sampleClock (hoursOf (Some ''2'')))
          (locationVariants ''nac'')
        = [sampleDoc ''nac'' ''2025-11-03T11:00:00.000Z'' ''Safe'', blankDoc JNull]"
    by code_simp
  have mem: "blankDoc JNull \<in> set (historyLoop sampleClock mixedContainer
          (cutoffDate sampleClock (hoursOf (Some ''2''))) (locationVariants ''nac''))"
    unfolding hist by simp
  from normalizeDoc_partial
  have r: "d \<in> set (historyLoop env c (cutoffDate env (hoursOf h)) (locationVariants key))
      \<Longrightarrow> \<forall>s. raw_location d \<noteq> JStr s \<Longrightarrow> apiHistory env (Some c) key h = Inl TypeError"
    for env c key h d
    by blast
  have 3: "apiHistory sampleClock (Some mixedContainer) ''nac'' (Some ''2'') = Inl TypeError"
    by (rule r [OF mem bad])
  from 1 2 3 show ?thesis by simp
qed

text \<open>
  C9. In every \<^verbatim>\<open>/api/status\<close> response the safe, caution and unsafe counts add up to
  \<open>totalLocations\<close>, so the "Unknown" branch is never taken: \<open>systemStatus\<close> is one of
  "No Data", "Unsafe", "Caution" and "Safe". The handler responds whenever each status is
  a string or missing and each timestamp a valid date, and always on an unconfigured store.
\<close>

theorem status_counts_consistent:
  "(\<forall>resp. apiStatus env cont = Inr resp \<longrightarrow>
      (\<exists>s. resp = Response 200 (StatusBody s)
         \<and> safeLocations s + cautionLocations s + unsafeLocations s = totalLocations s
         \<and> systemStatus s \<noteq> ''Unknown''
         \<and> systemStatus s \<in> {''No Data'', ''Unsafe'', ''Caution'', ''Safe''}))
   \<and> ((\<forall>r\<in>set (latestReadings cont locations3).
          stringOrFalsy (safetyStatus r) \<and> validTimestamp env (timestamp r))
        \<longrightarrow> (\<exists>resp. apiStatus env cont = Inr resp))
   \<and> (\<exists>resp. apiStatus env None = Inr resp)"
proof (intro conjI allI impI)
  fix resp
  assume "apiStatus env cont = Inr resp"
  then obtain st s where loop: "statusLoop env cont initTally locations3 = Inr st"
    and sm: "summarize env st = Inr s" and resp: "resp = Response 200 (StatusBody s)"
    by (rule apiStatus_Inr)
  have "safe initTally + caution initTally + unsafe initTally = total initTally"
    by (simp add: initTally_def)
  from statusLoop_sum [OF loop this] have sum: "safe st + caution st + unsafe st = total st" .
  then have "deriveStatus st \<noteq> ''Unknown''
      \<and> deriveStatus st \<in> {''No Data'', ''Unsafe'', ''Caution'', ''Safe''}"
    by (simp add: deriveStatus_def)
  with sum summarize_fields [OF sm] resp
  show "\<exists>s. resp = Response 200 (StatusBody s)
         \<and> safeLocations s + cautionLocations s + unsafeLocations s = totalLocations s
         \<and> systemStatus s \<noteq> ''Unknown''
         \<and> systemStatus s \<in> {''No Data'', ''Unsafe'', ''Caution'', ''Safe''}"
    by simp
next
  assume "\<forall>r\<in>set (latestReadings cont locations3).
          stringOrFalsy (safetyStatus r) \<and> validTimestamp env (timestamp r)"
  then show "\<exists>resp. apiStatus env cont = Inr resp" by (rule apiStatus_exists)
next
  have "latestReadings None locations3 = []"
    by (simp add: latestReadings_def getLatestData_def locations3_def)
  then have "\<forall>r\<in>set (latestReadings None locations3).
          stringOrFalsy (safetyStatus r) \<and> validTimestamp env (timestamp r)"
    by simp
  then show "\<exists>resp. apiStatus env None = Inr resp" by (rule apiStatus_exists)
qed

theorem status_counts_consistent_witness:
  "\<exists>s. apiStatus sampleClock (Some (runQuery (threeStore ''Caution'' '''' ''unsafe'')))
          = Inr (Response 200 (StatusBody s))
       \<and> safeLocations s + cautionLocations s + unsafeLocations s = totalLocations s
       \<and> systemStatus s \<noteq> ''Unknown''"
proof -
  let ?c = "Some (runQuery (threeStore ''Caution'' '''' ''unsafe''))"
  have ok: "\<forall>r\<in>set (latestReadings ?c locations3).
      stringOrFalsy (safetyStatus r) \<and> validTimestamp sampleClock (timestamp r)"
    by code_simp
  from status_counts_consistent [of sampleClock ?c] ok
  obtain r where r: "apiStatus sampleClock ?c = Inr r" by blast
  from status_counts_consistent [of sampleClock ?c] r show ?thesis by auto
qed

text \<open>
  C5. \<^verbatim>\<open>getLatestData\<close> walks the name variants in resolver order and returns the
  normalized record of the first variant that yields: a record stored under that variant
  with the greatest \<^verbatim>\<open>windowEnd\<close> among the records of that variant alone. Later variants
  are not looked at. A variant whose query throws counts like one without records, and the
  walk goes on; when no variant yields, or the store client is not configured, the result
  is \<^verbatim>\<open>null\<close> ("no data"), not an error.
\<close>

theorem latest_first_variant:
  "(case find (latestYields st) (locationVariants key) of
      None \<Rightarrow> getLatestData (Some (runQuery st)) key = None
    | Some v \<Rightarrow>
        (\<exists>d r. d \<in> set (atLocation st v)
           \<and> (\<forall>d'\<in>set (atLocation st v). orderKey (raw_windowEnd d') \<le> orderKey (raw_windowEnd d))
           \<and> normalizeDoc (Some d) = Inr (Some r)
           \<and> getLatestData (Some (runQuery st)) key = Some r))
   \<and> (\<forall>c v rest. c (LatestQuery v) = Inr [] \<or> (\<exists>e. c (LatestQuery v) = Inl e) \<longrightarrow>
         latestLoop c (v # rest) = latestLoop c rest)
   \<and> (\<forall>c v rest d ds r. c (LatestQuery v) = Inr (d # ds) \<and> normalizeDoc (Some d) = Inr r \<longrightarrow>
         latestLoop c (v # rest) = r)
   \<and> (\<forall>c. (\<forall>v\<in>set (locationVariants key).
              c (LatestQuery v) = Inr [] \<or> (\<exists>e. c (LatestQuery v) = Inl e)) \<longrightarrow>
         getLatestData (Some c) key = None)
   \<and> getLatestData None key = None"
proof -
  have u: "getLatestData None key = None"
    by (simp add: getLatestData_def)
  have a: "latestLoop c (v # rest) = latestLoop c rest"
    if "c (LatestQuery v) = Inr [] \<or> (\<exists>e. c (LatestQuery v) = Inl e)" for c v rest
    using that by auto
  have b: "latestLoop c (v # rest) = r"
    if "c (LatestQuery v) = Inr (d # ds) \<and> normalizeDoc (Some d) = Inr r" for c v rest d ds r
    using that by simp
  have n: "getLatestData (Some c) key = None"
    if "\<forall>v\<in>set (locationVariants key).
          c (LatestQuery v) = Inr [] \<or> (\<exists>e. c (LatestQuery v) = Inl e)" for c
    using latestLoop_nothing [OF that] by (simp add: getLatestData_def)
  have s: "case find (latestYields st) (locationVariants key) of
      None \<Rightarrow> getLatestData (Some (runQuery st)) key = None
    | Some v \<Rightarrow>
        (\<exists>d r. d \<in> set (atLocation st v)
           \<and> (\<forall>d'\<in>set (atLocation st v). orderKey (raw_windowEnd d') \<le> orderKey (raw_windowEnd d))
           \<and> normalizeDoc (Some d) = Inr (Some r)
           \<and> getLatestData (Some (runQuery st)) key = Some r)"
    using latestLoop_runQuery [of st "locationVariants key"]
    unfolding getLatestData_def option.case .
  from s a b n u show ?thesis by blast
qed

theorem latest_first_variant_witness:
  "getLatestData (Some (runQuery fallbackStore)) ''dows-lake''
     = Some (sampleReading ''dows-lake'' ''2025-11-03T11:00:00.000Z'' ''Safe'')
   \<and> getLatestData (Some (runQuery twoNamesStore)) ''rideau'' = None
   \<and> getLatestData (Some (runQuery twoNamesStore)) ''nac''
     = Some (sampleReading ''nac'' ''2025-11-03T11:30:00.000Z'' ''Caution'')"
proof -
  have f: "find (latestYields fallbackStore) (locationVariants ''dows-lake'') = Some ''Dow's Lake''"
    by code_simp
  have at: "atLocation fallbackStore ''Dow's Lake''
      = [sampleDoc ''Dow's Lake'' ''2025-11-03T11:00:00.000Z'' ''Safe'']"
    by code_simp
  have n: "normalizeDoc (Some (sampleDoc ''Dow's Lake'' ''2025-11-03T11:00:00.000Z'' ''Safe''))
      = Inr (Some (sampleReading ''dows-lake'' ''2025-11-03T11:00:00.000Z'' ''Safe''))"
    by code_simp
  from latest_first_variant [of fallbackStore "''dows-lake''"]
  have "\<exists>d r. d \<in> set (atLocation fallbackStore ''Dow's Lake'')
      \<and> normalizeDoc (Some d) = Inr (Some r)
      \<and> getLatestData (Some (runQuery fallbackStore)) ''dows-lake'' = Some r"
    unfolding f option.case by blast
  with at n have 1: "getLatestData (Some (runQuery fallbackStore)) ''dows-lake''
     = Some (sampleReading ''dows-lake'' ''2025-11-03T11:00:00.000Z'' ''Safe'')"
    by auto
  have g: "find (latestYields twoNamesStore) (locationVariants ''rideau'') = None"
    by code_simp
  from latest_first_variant [of twoNamesStore "''rideau''"]
  have 2: "getLatestData (Some (runQuery twoNamesStore)) ''rideau'' = None"
    unfolding g option.case by blast
  have 3: "getLatestData (Some (runQuery twoNamesStore)) ''nac''
     = Some (sampleReading ''nac'' ''2025-11-03T11:30:00.000Z'' ''Caution'')"
    by code_simp
  from 1 2 3 show ?thesis by blast
qed

text \<open>
  C4, as amended. On a configured store client the history endpoint answers HTTP 200 with
  an empty array, for any location and any \<^verbatim>\<open>hours\<close> value, when every query that the
  request issues, one for each name variant with the request's own cutoff, either finds
  nothing or throws. When the store client was never initialized it answers HTTP 500 with
  \<^verbatim>\<open>{error: "Container not initialized"}\<close>.
\<close>

theorem history_unconfigured_amended:
  "apiHistory env None key h = Inr (Response 500 (ErrorBody ''Container not initialized''))
   \<and> ((\<forall>v cutIso. v \<in> set (locationVariants key)
            \<and> toISOString env (cutoffDate env (hoursOf h)) = Inr cutIso \<longrightarrow>
          c (HistoryQuery v cutIso) = Inr [] \<or> (\<exists>e. c (HistoryQuery v cutIso) = Inl e))
        \<longrightarrow> apiHistory env (Some c) key h = Inr (Response 200 (ReadingsBody [])))"
proof -
  have "apiHistory env (Some c) key h = Inr (Response 200 (ReadingsBody []))"
    if "\<forall>v cutIso. v \<in> set (locationVariants key)
            \<and> toISOString env (cutoffDate env (hoursOf h)) = Inr cutIso \<longrightarrow>
          c (HistoryQuery v cutIso) = Inr [] \<or> (\<exists>e. c (HistoryQuery v cutIso) = Inl e)"
  proof -
    have "historyLoop env c (cutoffDate env (hoursOf h)) (locationVariants key) = []"
      using that by (intro historyLoop_nothing) blast
    then show ?thesis by (simp add: apiHistory_def)
  qed
  then show ?thesis by (simp add: apiHistory_def)
qed

theorem history_unconfigured_amended_witness:
  "apiHistory sampleClock (Some (runQuery oldRecordStore)) ''nac'' (Some ''2'')
      = Inr (Response 200 (ReadingsBody []))
   \<and> atLocation oldRecordStore ''nac'' \<noteq> []
   \<and> apiHistory sampleClock (Some brokenContainer) ''nac'' (Some ''2'')
      = Inr (Response 200 (ReadingsBody []))
   \<and> apiHistory sampleClock (Some emptyContainer) ''nac'' None
      = Inr (Response 200 (ReadingsBody []))"
proof -
  have lv: "locationVariants ''nac'' = [''nac'', ''NAC'']"
    by (simp add: locationVariants_def aliasOf_def)
  have c: "toISOString sampleClock (cutoffDate sampleClock (hoursOf (Some ''2'')))
      = Inr ''2025-11-03T10:00:00.000Z''"
    by code_simp
  have q1: "runQuery oldRecordStore (HistoryQuery ''nac'' ''2025-11-03T10:00:00.000Z'') = Inr []"
    by code_simp
  have q2: "runQuery oldRecordStore (HistoryQuery ''NAC'' ''2025-11-03T10:00:00.000Z'') = Inr []"
    by code_simp
  have ne: "atLocation oldRecordStore ''nac'' \<noteq> []"
    by code_simp
  have 1: "apiHistory sampleClock (Some (runQuery oldRecordStore)) ''nac'' (Some ''2'')
      = Inr (Response 200 (ReadingsBody []))"
    using history_unconfigured_amended [where env = sampleClock and key = "''nac''"
        and h = "Some ''2''" and c = "runQuery oldRecordStore"] q1 q2
    by (auto simp: lv c)
  have 2: "apiHistory sampleClock (Some brokenContainer) ''nac'' (Some ''2'')
      = Inr (Response 200 (ReadingsBody []))"
    using history_unconfigured_amended [where env = sampleClock and key = "''nac''"
        and h = "Some ''2''" and c = brokenContainer]
    by (simp add: brokenContainer_def)
  have 3: "apiHistory sampleClock (Some emptyContainer) ''nac'' None
      = Inr (Response 200 (ReadingsBody []))"
    using history_unconfigured_amended [where env = sampleClock and key = "''nac''"
        and h = None and c = emptyContainer]
    by (simp add: emptyContainer_def)
  from 1 ne 2 3 show ?thesis by blast
qed

theorem history_unconfigured_counterexample:
  "apiHistory sampleClock None ''dows-lake'' (Some ''1'')
     = Inr (Response 500 (ErrorBody ''Container not initialized''))"
  by (simp add: apiHistory_def)

text \<open>
  C8. For every key that reaches the resolver the variants are the key itself first,
  followed by its display-name alias when it is one of the three canonical keys
  (\<^verbatim>\<open>"Dow's Lake"\<close>, \<^verbatim>\<open>"Fifth Avenue"\<close>, \<^verbatim>\<open>"NAC"\<close>); the sequence has no duplicates,
  and any other key yields just that key. The keys that reach the resolver are the three
  fixed keys and the \<^verbatim>\<open>:location\<close> parameter of a matched route, none of them empty.
\<close>

theorem locationVariants_resolver:
  "(key \<noteq> [] \<longrightarrow>
      locationVariants key = key # (case aliasOf key of None \<Rightarrow> [] | Some a \<Rightarrow> [a])
      \<and> hd (locationVariants key) = key
      \<and> distinct (locationVariants key)
      \<and> (key \<noteq> ''dows-lake'' \<and> key \<noteq> ''fifth-avenue'' \<and> key \<noteq> ''nac'' \<longrightarrow>
           locationVariants key = [key]))
   \<and> locationVariants ''dows-lake'' = [''dows-lake'', ''Dow's Lake'']
   \<and> locationVariants ''fifth-avenue'' = [''fifth-avenue'', ''Fifth Avenue'']
   \<and> locationVariants ''nac'' = [''nac'', ''NAC'']
   \<and> (\<forall>k\<in>set locations3. k \<noteq> [])
   \<and> (\<forall>p l. matchRoute p = Some (RouteDataLocation l) \<or> matchRoute p = Some (RouteHistory l)
          \<longrightarrow> l \<noteq> [])"
proof -
  have a: "key \<noteq> [] \<longrightarrow>
      locationVariants key = key # (case aliasOf key of None \<Rightarrow> [] | Some a \<Rightarrow> [a])
      \<and> hd (locationVariants key) = key
      \<and> distinct (locationVariants key)
      \<and> (key \<noteq> ''dows-lake'' \<and> key \<noteq> ''fifth-avenue'' \<and> key \<noteq> ''nac'' \<longrightarrow>
           locationVariants key = [key])"
    by (auto simp: locationVariants_def aliasOf_def)
  have b: "locationVariants ''dows-lake'' = [''dows-lake'', ''Dow's Lake'']
   \<and> locationVariants ''fifth-avenue'' = [''fifth-avenue'', ''Fifth Avenue'']
   \<and> locationVariants ''nac'' = [''nac'', ''NAC'']"
    by (simp add: locationVariants_def aliasOf_def)
  have c: "\<forall>k\<in>set locations3. k \<noteq> []"
    by (simp add: locations3_def)
  from a b c segments_nonempty_param show ?thesis by blast
qed

theorem locationVariants_resolver_witness:
  "locationVariants ''rideau'' = [''rideau''] \<and> hd (locationVariants ''nac'') = ''nac''
   \<and> distinct (locationVariants ''fifth-avenue'')"
  using locationVariants_resolver [of "''rideau''"] locationVariants_resolver [of "''nac''"]
    locationVariants_resolver [of "''fifth-avenue''"]
  by (simp add: aliasOf_def)

text \<open>
  C2. For readings whose \<^verbatim>\<open>safetyStatus\<close> is a string or missing, the status handler
  counts the readings found for the three locations and puts each of them in exactly one
  class by its status without regard to case: \<^verbatim>\<open>safe\<close>, \<^verbatim>\<open>caution\<close>, and unsafe for
  every other value, a missing one included. Every response carries these counts, and its
  \<open>systemStatus\<close> follows from them in strict priority: "No Data" for no reading, else
  "Unsafe" for an unsafe one, else "Caution" for a caution one, else "Safe" when all are
  safe. Statuses Safe, Caution, Safe give "Caution" with counts 3/2/1/0; one status
  "Warning" gives "Unsafe".
\<close>

theorem status_aggregation:
  assumes "\<forall>r\<in>set (latestReadings cont locations3). stringOrFalsy (safetyStatus r)"
  shows "(\<exists>st. statusLoop env cont initTally locations3 = Inr st
           \<and> total st = length (latestReadings cont locations3)
           \<and> safe st = length (filter (\<lambda>r. classify r = Safe) (latestReadings cont locations3))
           \<and> caution st = length (filter (\<lambda>r. classify r = Caution) (latestReadings cont locations3))
           \<and> unsafe st = length (filter (\<lambda>r. classify r = Unsafe) (latestReadings cont locations3)))
    \<and> (\<forall>resp. apiStatus env cont = Inr resp \<longrightarrow>
         (\<exists>s. resp = Response 200 (StatusBody s)
            \<and> totalLocations s = length (latestReadings cont locations3)
            \<and> safeLocations s = length (filter (\<lambda>r. classify r = Safe) (latestReadings cont locations3))
            \<and> cautionLocations s = length (filter (\<lambda>r. classify r = Caution) (latestReadings cont locations3))
            \<and> unsafeLocations s = length (filter (\<lambda>r. classify r = Unsafe) (latestReadings cont locations3))
            \<and> systemStatus s =
                (if totalLocations s = 0 then ''No Data''
                 else if unsafeLocations s > 0 then ''Unsafe''
                 else if cautionLocations s > 0 then ''Caution''
                 else if safeLocations s = totalLocations s then ''Safe''
                 else ''Unknown'')))
    \<and> ((\<forall>r\<in>set (latestReadings cont locations3). validTimestamp env (timestamp r))
         \<longrightarrow> (\<exists>resp. apiStatus env cont = Inr resp))
    \<and> (\<forall>r. (classify r = Safe) = (\<exists>s. safetyStatus r = JStr s \<and> toLowerCase s = ''safe''))
    \<and> (\<forall>r. (classify r = Caution) = (\<exists>s. safetyStatus r = JStr s \<and> toLowerCase s = ''caution''))
    \<and> (\<forall>r. (classify r = Unsafe) = (classify r \<noteq> Safe \<and> classify r \<noteq> Caution))"
proof (intro conjI allI impI)
  from statusLoop_runs [OF assms] obtain st where
    st: "statusLoop env cont initTally locations3 = Inr st" by blast
  from statusLoop_counts [OF st]
  show "\<exists>st. statusLoop env cont initTally locations3 = Inr st
           \<and> total st = length (latestReadings cont locations3)
           \<and> safe st = length (filter (\<lambda>r. classify r = Safe) (latestReadings cont locations3))
           \<and> caution st = length (filter (\<lambda>r. classify r = Caution) (latestReadings cont locations3))
           \<and> unsafe st = length (filter (\<lambda>r. classify r = Unsafe) (latestReadings cont locations3))"
    using st by (simp add: initTally_def)
next
  fix resp
  assume "apiStatus env cont = Inr resp"
  then obtain st s where loop: "statusLoop env cont initTally locations3 = Inr st"
    and sm: "summarize env st = Inr s" and resp: "resp = Response 200 (StatusBody s)"
    by (rule apiStatus_Inr)
  from statusLoop_counts [OF loop] summarize_fields [OF sm] resp
  show "\<exists>s. resp = Response 200 (StatusBody s)
            \<and> totalLocations s = length (latestReadings cont locations3)
            \<and> safeLocations s = length (filter (\<lambda>r. classify r = Safe) (latestReadings cont locations3))
            \<and> cautionLocations s = length (filter (\<lambda>r. classify r = Caution) (latestReadings cont locations3))
            \<and> unsafeLocations s = length (filter (\<lambda>r. classify r = Unsafe) (latestReadings cont locations3))
            \<and> systemStatus s =
                (if totalLocations s = 0 then ''No Data''
                 else if unsafeLocations s > 0 then ''Unsafe''
                 else if cautionLocations s > 0 then ''Caution''
                 else if safeLocations s = totalLocations s then ''Safe''
                 else ''Unknown'')"
    by (simp add: deriveStatus_def initTally_def)
next
  assume "\<forall>r\<in>set (latestReadings cont locations3). validTimestamp env (timestamp r)"
  with assms show "\<exists>resp. apiStatus env cont = Inr resp"
    by (rule apiStatus_exists_iff_valid)
next
  fix r show "(classify r = Safe) = (\<exists>s. safetyStatus r = JStr s \<and> toLowerCase s = ''safe'')"
    by (rule classify_cases)
next
  fix r show "(classify r = Caution) = (\<exists>s. safetyStatus r = JStr s \<and> toLowerCase s = ''caution'')"
    by (rule classify_cases)
next
  fix r show "(classify r = Unsafe) = (classify r \<noteq> Safe \<and> classify r \<noteq> Caution)"
    by (cases "classify r") simp_all
qed

theorem status_aggregation_witness:
  "(\<exists>s. apiStatus sampleClock (Some (runQuery (threeStore ''Safe'' ''Caution'' ''Safe'')))
          = Inr (Response 200 (StatusBody s))
        \<and> systemStatus s = ''Caution'' \<and> totalLocations s = 3 \<and> safeLocations s = 2
        \<and> cautionLocations s = 1 \<and> unsafeLocations s = 0)
   \<and> (\<exists>s. apiStatus sampleClock (Some (runQuery (threeStore ''Safe'' ''Warning'' ''SAFE'')))
          = Inr (Response 200 (StatusBody s))
        \<and> systemStatus s = ''Unsafe'' \<and> totalLocations s = 3 \<and> safeLocations s = 2
        \<and> cautionLocations s = 0 \<and> unsafeLocations s = 1)"
proof -
  let ?a = "Some (runQuery (threeStore ''Safe'' ''Caution'' ''Safe''))"
  let ?b = "Some (runQuery (threeStore ''Safe'' ''Warning'' ''SAFE''))"
  have oka: "\<forall>r\<in>set (latestReadings ?a locations3). stringOrFalsy (safetyStatus r)"
    by code_simp
  have okb: "\<forall>r\<in>set (latestReadings ?b locations3). stringOrFalsy (safetyStatus r)"
    by code_simp
  have va: "\<forall>r\<in>set (latestReadings ?a locations3). validTimestamp sampleClock (timestamp r)"
    by code_simp
  have vb: "\<forall>r\<in>set (latestReadings ?b locations3). validTimestamp sampleClock (timestamp r)"
    by code_simp
  have na: "length (latestReadings ?a locations3) = 3"
    "length (filter (\<lambda>r. classify r = Safe) (latestReadings ?a locations3)) = 2"
    "length (filter (\<lambda>r. classify r = Caution) (latestReadings ?a locations3)) = 1"
    "length (filter (\<lambda>r. classify r = Unsafe) (latestReadings ?a locations3)) = 0"
    by code_simp+
  have nb: "length (latestReadings ?b locations3) = 3"
    "length (filter (\<lambda>r. classify r = Safe) (latestReadings ?b locations3)) = 2"
    "length (filter (\<lambda>r. classify r = Caution) (latestReadings ?b locations3)) = 0"
    "length (filter (\<lambda>r. classify r = Unsafe) (latestReadings ?b locations3)) = 1"
    by code_simp+
  note ta = status_aggregation [OF oka, where env = sampleClock]
  note tb = status_aggregation [OF okb, where env = sampleClock]
  from ta va obtain ra where ra: "apiStatus sampleClock ?a = Inr ra" by blast
  from tb vb obtain rb where rb: "apiStatus sampleClock ?b = Inr rb" by blast
  from ta ra obtain sa where sa: "ra = Response 200 (StatusBody sa)"
    "totalLocations sa = length (latestReadings ?a locations3)"
    "safeLocations sa = length (filter (\<lambda>r. classify r = Safe) (latestReadings ?a locations3))"
    "cautionLocations sa = length (filter (\<lambda>r. classify r = Caution) (latestReadings ?a locations3))"
    "unsafeLocations sa = length (filter (\<lambda>r. classify r = Unsafe) (latestReadings ?a locations3))"
    "systemStatus sa =
             (if totalLocations sa = 0 then ''No Data''
              else if unsafeLocations sa > 0 then ''Unsafe''
              else if cautionLocations sa > 0 then ''Caution''
              else if safeLocations sa = totalLocations sa then ''Safe''
              else ''Unknown'')"
    by blast
  from tb rb obtain sb where sb: "rb = Response 200 (StatusBody sb)"
    "totalLocations sb = length (latestReadings ?b locations3)"
    "safeLocations sb = length (filter (\<lambda>r. classify r = Safe) (latestReadings ?b locations3))"
    "cautionLocations sb = length (filter (\<lambda>r. classify r = Caution) (latestReadings ?b locations3))"
    "unsafeLocations sb = length (filter (\<lambda>r. classify r = Unsafe) (latestReadings ?b locations3))"
    "systemStatus sb =
             (if totalLocations sb = 0 then ''No Data''
              else if unsafeLocations sb > 0 then ''Unsafe''
              else if cautionLocations sb > 0 then ''Caution''
              else if safeLocations sb = totalLocations sb then ''Safe''
              else ''Unknown'')"
    by blast
  from ra sa na have A: "\<exists>s. apiStatus sampleClock ?a = Inr (Response 200 (StatusBody s))
        \<and> systemStatus s = ''Caution'' \<and> totalLocations s = 3 \<and> safeLocations s = 2
        \<and> cautionLocations s = 1 \<and> unsafeLocations s = 0"
    by simp
  from rb sb nb have B: "\<exists>s. apiStatus sampleClock ?b = Inr (Response 200 (StatusBody s))
        \<and> systemStatus s = ''Unsafe'' \<and> totalLocations s = 3 \<and> safeLocations s = 2
        \<and> cautionLocations s = 0 \<and> unsafeLocations s = 1"
    by simp
  from A B show ?thesis by blast
qed




end
